theory Spec2Isabelle
  imports Main
begin

section \<open>JavaScript values\<close>

text \<open>
  Numbers as the program meets them: doubles with an integer value (\<open>Fin\<close>, with
  \<open>Fin 0\<close> for +0), the negative zero, the two infinities and NaN.
\<close>

datatype jsnum = NaN | Fin int | NegZero | PosInf | NegInf

text \<open>
  Values: primitives (symbols among them), plain data objects (JSON payloads, compared by
  content) and references to instances created with \<open>new\<close> (compared by identity).
\<close>

datatype jsval =
    Undefined
  | Null
  | Bool bool
  | Num jsnum
  | Str string
  | Symbol string
  | Obj "(string \<times> jsval) list"
  | Ref nat

text \<open>
  A text that the program reads character by character (the source text of a function,
  a query value) is a sequence of UTF-16 code units; \<open>utf16\<close> writes an ASCII text as
  one.
\<close>

type_synonym codeunit = nat

definition cu :: "char \<Rightarrow> codeunit" where
  "cu c = of_char c"

definition utf16 :: "string \<Rightarrow> codeunit list" where
  "utf16 s = map cu s"

datatype error =
    Error string
  | TypeError string
  | AxiosError string
  | HttpError error

text \<open>The condition of \<open>if (v)\<close> and the operand of \<open>!v\<close>.\<close>

fun truthy :: "jsval \<Rightarrow> bool" where
  "truthy Undefined = False"
| "truthy Null = False"
| "truthy (Bool b) = b"
| "truthy (Num NaN) = False"
| "truthy (Num (Fin n)) = (n \<noteq> 0)"
| "truthy (Num NegZero) = False"
| "truthy (Num PosInf) = True"
| "truthy (Num NegInf) = True"
| "truthy (Str s) = (s \<noteq> [])"
| "truthy (Symbol s) = True"
| "truthy (Obj kvs) = True"
| "truthy (Ref r) = True"

text \<open>Property read \<open>v.k\<close>: a TypeError on undefined and null, undefined when missing.\<close>

fun get_prop :: "jsval \<Rightarrow> string \<Rightarrow> error + jsval" where
  "get_prop Undefined k = Inl (TypeError k)"
| "get_prop Null k = Inl (TypeError k)"
| "get_prop (Obj kvs) k = (case map_of kvs k of None \<Rightarrow> Inr Undefined | Some v \<Rightarrow> Inr v)"
| "get_prop v k = Inr Undefined"

text \<open>
  The promise an \<open>async\<close> function returns, once settled. Calling an \<open>async\<close>
  function never throws: an exception raised in its body rejects the promise. Only
  \<open>await\<close> turns a rejection back into an exception of the caller.
\<close>

datatype 'a promise = Fulfilled 'a | Rejected error

fun await :: "'a promise \<Rightarrow> error + 'a" where
  "await (Fulfilled v) = Inr v"
| "await (Rejected err) = Inl err"

text \<open>The body of an \<open>async\<close> function with \<open>try { ... } catch (error) { throw new HttpError(error) }\<close>.\<close>

fun rethrow_HttpError :: "error + 'a \<Rightarrow> 'a promise" where
  "rethrow_HttpError (Inr v) = Fulfilled v"
| "rethrow_HttpError (Inl err) = Rejected (HttpError err)"

text \<open>Sequencing of steps that may throw.\<close>

fun and_then :: "error + 'a \<Rightarrow> ('a \<Rightarrow> error + 'b) \<Rightarrow> error + 'b" where
  "and_then (Inl err) f = Inl err"
| "and_then (Inr v) f = f v"

section \<open>The remote provider as seen through the HTTP client\<close>

text \<open>
  The provider answers a request with a status and a body, or the connection fails.
  The HTTP client rejects on a connection failure and on every status outside 200..299.
\<close>

datatype remote = NetworkFailure string | Response nat jsval

fun axios :: "remote \<Rightarrow> error + jsval" where
  "axios (NetworkFailure m) = Inl (AxiosError m)"
| "axios (Response st d) =
     (if 200 \<le> st \<and> st < 300 then Inr d else Inl (AxiosError ''Request failed''))"

record env =
  SERVICE_PROVIDER_OAUTH_URL :: string
  CLIENT_ID :: string
  CLIENT_SECRET :: string
  REDIRECT_URI :: string

section \<open>AuthService and AuthController\<close>

text \<open>The form passed to \<open>querystring.stringify\<close>.\<close>

definition token_request :: "env \<Rightarrow> jsval \<Rightarrow> (string \<times> jsval) list" where
  "token_request e code =
     [(''client_id'', Str (CLIENT_ID e)),
      (''client_secret'', Str (CLIENT_SECRET e)),
      (''code'', code),
      (''grant_type'', Str ''authorization_code''),
      (''redirect_uri'', Str (REDIRECT_URI e))]"

text \<open>
  \<open>authorizeUser\<close> posts the form to the token endpoint and returns the body of the
  answer; whatever the call throws is rethrown wrapped in an \<open>HttpError\<close>.
\<close>

definition authorizeUser ::
  "env \<Rightarrow> (string \<Rightarrow> (string \<times> jsval) list \<Rightarrow> remote) \<Rightarrow> jsval \<Rightarrow> jsval promise" where
  "authorizeUser e post code =
     rethrow_HttpError
       (axios (post (SERVICE_PROVIDER_OAUTH_URL e @ ''/token'') (token_request e code)))"

record session =
  user :: jsval

text \<open>What a controller action does to the response and to the next stage, in order.\<close>

datatype locals = NoLocals | APromise "jsval promise" | Groups "jsval promise"

datatype effect = Redirect string | Render string locals | Next error

text \<open>
  \<open>authorize\<close> awaits the service: on a fulfilled promise the payload is assigned to
  \<open>req.session.user\<close> and the response redirects; on a rejected one the assignment
  never happens and the converted error goes to \<open>next\<close>. \<open>convertToHttpError\<close> lives
  outside the files at hand and is a parameter.
\<close>

definition authorize ::
  "(error \<Rightarrow> error) \<Rightarrow> env \<Rightarrow> (string \<Rightarrow> (string \<times> jsval) list \<Rightarrow> remote) \<Rightarrow>
     jsval \<Rightarrow> session \<Rightarrow> session \<times> effect list" where
  "authorize convertToHttpError e post code s =
     (case await (authorizeUser e post code) of
        Inr payload \<Rightarrow> (s\<lparr>user := payload\<rparr>, [Redirect ''/home''])
      | Inl err \<Rightarrow> (s, [Next (convertToHttpError err)]))"

text \<open>The exchange fails when the call throws or the status is not 2xx.\<close>

fun exchange_fails :: "remote \<Rightarrow> bool" where
  "exchange_fails (NetworkFailure m) = True"
| "exchange_fails (Response st d) = (\<not> (200 \<le> st \<and> st < 300))"

fun token_payload :: "remote \<Rightarrow> jsval" where
  "token_payload (NetworkFailure m) = Undefined"
| "token_payload (Response st d) = d"

section \<open>Numbers in the activities listing\<close>

text \<open>
  White space as \<open>parseInt\<close> and the pattern class \<open>\s\<close> see it: the white-space and
  line-terminator code points of the language, all of them single code units.
\<close>

definition isWhiteSpace :: "codeunit \<Rightarrow> bool" where
  "isWhiteSpace c \<longleftrightarrow>
     c \<in> set [0x09, 0x0A, 0x0B, 0x0C, 0x0D, 0x20, 0xA0, 0x1680,
              0x2028, 0x2029, 0x202F, 0x205F, 0x3000, 0xFEFF] \<or>
     (0x2000 \<le> c \<and> c \<le> 0x200A)"

text \<open>The value of a code unit as a digit of the given radix, if it is one.\<close>

definition digit :: "nat \<Rightarrow> codeunit \<Rightarrow> nat option" where
  "digit radix n =
     (let d = (if 48 \<le> n \<and> n \<le> 57 then Some (n - 48)
               else if 97 \<le> n \<and> n \<le> 122 then Some (n - 87)
               else if 65 \<le> n \<and> n \<le> 90 then Some (n - 55)
               else None)
      in case d of None \<Rightarrow> None | Some v \<Rightarrow> if v < radix then Some v else None)"

text \<open>
  The double nearest to a natural number (ties to the even significand), or nothing when
  that is Infinity. Numbers below \<open>2 ^ 53\<close> are doubles already.
\<close>

fun bit_length :: "nat \<Rightarrow> nat" where
  "bit_length n = (if n = 0 then 0 else Suc (bit_length (n div 2)))"

declare bit_length.simps [simp del]

definition round_to_double :: "nat \<Rightarrow> nat option" where
  "round_to_double m =
     (if m < 2 ^ 53 then Some m
      else (let e = bit_length m - 53;
                q = m div 2 ^ e;
                r = m mod 2 ^ e;
                half = 2 ^ (e - 1);
                q' = (if half < r \<or> (r = half \<and> odd q) then q + 1 else q)
            in if 2 ^ 1024 \<le> q' * 2 ^ e then None else Some (q' * 2 ^ e)))"

text \<open>
  \<open>parseInt(v)\<close> with no radix, on a query value that is absent (\<open>undefined\<close>, read as
  the text "undefined") or a string: leading white space and a sign are skipped, a
  \<open>0x\<close> prefix selects radix 16, the longest run of digits is read, and no digit at all
  gives NaN. The result is the double of the integer read. (Beyond twenty decimal
  digits an engine may read the further digits as zeros; the exact value is taken here.)
\<close>

definition parseInt :: "codeunit list option \<Rightarrow> jsnum" where
  "parseInt v =
     (let inputString = (case v of None \<Rightarrow> utf16 ''undefined'' | Some str \<Rightarrow> str);
          S = dropWhile isWhiteSpace inputString;
          neg = (case S of c # _ \<Rightarrow> c = cu CHR ''-'' | [] \<Rightarrow> False);
          S1 = (case S of c # rest \<Rightarrow> if c = cu CHR ''+'' \<or> c = cu CHR ''-'' then rest else S | [] \<Rightarrow> S);
          hex = (case S1 of a # b # _ \<Rightarrow> a = cu CHR ''0'' \<and> (b = cu CHR ''x'' \<or> b = cu CHR ''X'') | _ \<Rightarrow> False);
          R = (if hex then 16 else 10);
          S2 = (if hex then drop 2 S1 else S1);
          Z = takeWhile (\<lambda>c. digit R c \<noteq> None) S2;
          m = foldl (\<lambda>acc c. acc * R + (case digit R c of Some d \<Rightarrow> d | None \<Rightarrow> 0)) 0 Z
      in if Z = [] then NaN
         else (case round_to_double m of
                 None \<Rightarrow> (if neg then NegInf else PosInf)
               | Some d \<Rightarrow>
                   if d = 0 then (if neg then NegZero else Fin 0)
                   else Fin (if neg then - int d else int d)))"

text \<open>
  \<open>Math.ceil(a / b)\<close> for a positive integer \<open>a\<close> up to 120: the rounding of the
  quotient to a double never carries it across an integer.
\<close>

fun ceil_quotient :: "int \<Rightarrow> jsnum \<Rightarrow> jsnum" where
  "ceil_quotient a NaN = NaN"
| "ceil_quotient a (Fin b) =
     (if b = 0 then PosInf
      else if 0 < b then Fin (- ((- a) div b))
      else if - ((- a) div b) = 0 then NegZero
      else Fin (- ((- a) div b)))"
| "ceil_quotient a NegZero = NegInf"
| "ceil_quotient a PosInf = Fin 0"
| "ceil_quotient a NegInf = NegZero"

text \<open>The comparison \<open>x <= y\<close> on numbers: false whenever NaN is involved.\<close>

fun js_le :: "jsnum \<Rightarrow> jsnum \<Rightarrow> bool" where
  "js_le NaN y = False"
| "js_le x NaN = False"
| "js_le NegInf y = True"
| "js_le x PosInf = True"
| "js_le PosInf y = False"
| "js_le x NegInf = False"
| "js_le (Fin a) (Fin b) = (a \<le> b)"
| "js_le (Fin a) NegZero = (a \<le> 0)"
| "js_le NegZero (Fin b) = (0 \<le> b)"
| "js_le NegZero NegZero = True"

section \<open>ResourceService\<close>

datatype query = ProfileQuery | GroupsQuery

text \<open>
  \<open>fetchProfile\<close>: the client is built from \<open>user.access_token\<close>, the id token is
  decoded, the query is sent, and the view model is put together; any exception on the
  way rejects the promise with an \<open>HttpError\<close>. Decoding and the GraphQL call are
  parameters.
\<close>

definition fetchProfile ::
  "(jsval \<Rightarrow> error + jsval) \<Rightarrow> (jsval \<Rightarrow> query \<Rightarrow> error + jsval) \<Rightarrow> jsval \<Rightarrow> jsval promise" where
  "fetchProfile jwtDecode graphql usr =
     rethrow_HttpError
       (and_then (get_prop usr ''access_token'') (\<lambda>access_token.
        and_then (get_prop usr ''id_token'') (\<lambda>id_token.
        and_then (jwtDecode id_token) (\<lambda>userPayload.
        and_then (graphql access_token ProfileQuery) (\<lambda>response.
        and_then (get_prop userPayload ''sub'') (\<lambda>sub.
        and_then (get_prop userPayload ''email'') (\<lambda>email.
        and_then (get_prop userPayload ''preferred_username'') (\<lambda>preferred_username.
        and_then (get_prop userPayload ''name'') (\<lambda>name.
        and_then (get_prop userPayload ''picture'') (\<lambda>picture.
        and_then (get_prop response ''currentUser'') (\<lambda>currentUser.
        and_then (get_prop currentUser ''lastActivityOn'') (\<lambda>lastActivityOn.
          Inr (Obj [(''id'', sub),
                    (''email'', email),
                    (''username'', preferred_username),
                    (''name'', name),
                    (''avatar'', picture),
                    (''lastActivityOn'', lastActivityOn)])))))))))))))"

text \<open>
  \<open>fetchActivities\<close>: absent (\<open>undefined\<close>) arguments take the defaults 1 and 20. The
  result carries the requests issued, so that what the events endpoint was asked is
  visible, and the promise of the view model.
\<close>

definition totalActivities :: int where
  "totalActivities = 120"

record http_get =
  url :: string
  params :: "(string \<times> jsnum) list"
  bearer :: jsval

definition fetchActivities ::
  "(http_get \<Rightarrow> remote) \<Rightarrow> jsval \<Rightarrow> jsnum option \<Rightarrow> jsnum option \<Rightarrow> http_get list \<times> jsval promise" where
  "fetchActivities get usr page_arg limit_arg =
     (let page = (case page_arg of None \<Rightarrow> Fin 1 | Some p \<Rightarrow> p);
          limit = (case limit_arg of None \<Rightarrow> Fin 20 | Some l \<Rightarrow> l);
          totalPages = ceil_quotient totalActivities limit
      in case get_prop usr ''access_token'' of
           Inl err \<Rightarrow> ([], Rejected (HttpError err))
         | Inr access_token \<Rightarrow>
             (let request = \<lparr>url = ''https://gitlab.lnu.se/api/v4/events'',
                             params = [(''per_page'', limit),
                                       (''page'', if js_le page totalPages then page else totalPages)],
                             bearer = access_token\<rparr>
              in ([request],
                  rethrow_HttpError
                    (and_then (axios (get request)) (\<lambda>data.
                       Inr (Obj [(''activities'', data),
                                 (''page'', Num page),
                                 (''totalPages'', Num totalPages),
                                 (''limit'', Num limit)]))))))"

definition fetchGroups :: "(jsval \<Rightarrow> query \<Rightarrow> error + jsval) \<Rightarrow> jsval \<Rightarrow> jsval promise" where
  "fetchGroups graphql usr =
     rethrow_HttpError
       (and_then (get_prop usr ''access_token'') (\<lambda>access_token.
        and_then (graphql access_token GroupsQuery) (\<lambda>response.
        and_then (get_prop response ''currentUser'') (\<lambda>currentUser.
          get_prop currentUser ''groups''))))"

section \<open>ResourceController\<close>

text \<open>
  The three actions call the service inside \<open>try\<close> and pass what the call returns to
  \<open>res.render\<close>. The service methods are \<open>async\<close> and the calls are not awaited, so
  what the call returns is the promise, and the call itself does not throw.
\<close>

definition call_async :: "'a promise \<Rightarrow> error + 'a promise" where
  "call_async p = Inr p"

definition profile ::
  "(error \<Rightarrow> error) \<Rightarrow> (jsval \<Rightarrow> error + jsval) \<Rightarrow> (jsval \<Rightarrow> query \<Rightarrow> error + jsval) \<Rightarrow>
     session \<Rightarrow> effect list" where
  "profile convertToHttpError jwtDecode graphql s =
     (case call_async (fetchProfile jwtDecode graphql (user s)) of
        Inr p \<Rightarrow> [Render ''profile'' (APromise p)]
      | Inl err \<Rightarrow> [Next (convertToHttpError err)])"

definition activities ::
  "(error \<Rightarrow> error) \<Rightarrow> (http_get \<Rightarrow> remote) \<Rightarrow> (string \<times> codeunit list) list \<Rightarrow>
     session \<Rightarrow> http_get list \<times> effect list" where
  "activities convertToHttpError get query s =
     (let (requests, p) =
            fetchActivities get (user s)
              (Some (parseInt (map_of query ''page''))) (Some (parseInt (map_of query ''limit'')))
      in case call_async p of
           Inr p' \<Rightarrow> (requests, [Render ''activities'' (APromise p')])
         | Inl err \<Rightarrow> (requests, [Next (convertToHttpError err)]))"

definition groups ::
  "(error \<Rightarrow> error) \<Rightarrow> (jsval \<Rightarrow> query \<Rightarrow> error + jsval) \<Rightarrow> session \<Rightarrow> effect list" where
  "groups convertToHttpError graphql s =
     (case call_async (fetchGroups graphql (user s)) of
        Inr p \<Rightarrow> [Render ''groups'' (Groups p)]
      | Inl err \<Rightarrow> [Next (convertToHttpError err)])"

section \<open>The source pattern for factory functions\<close>

text \<open>
  The pattern \<open>arrowFunctionRegex\<close> is anchored at both ends and \<open>test\<close> asks whether
  the whole text belongs to its language. Patterns are terms, and membership is decided
  by taking the residual pattern after each character in turn.
\<close>

datatype regex =
    Never
  | Empty
  | Chars "codeunit \<Rightarrow> bool"
  | Seq regex regex
  | Alt regex regex
  | Star regex

fun nullable :: "regex \<Rightarrow> bool" where
  "nullable Never = False"
| "nullable Empty = True"
| "nullable (Chars p) = False"
| "nullable (Seq r s) = (nullable r \<and> nullable s)"
| "nullable (Alt r s) = (nullable r \<or> nullable s)"
| "nullable (Star r) = True"

fun alt :: "regex \<Rightarrow> regex \<Rightarrow> regex" where
  "alt Never s = s"
| "alt r Never = r"
| "alt r s = Alt r s"

fun seq :: "regex \<Rightarrow> regex \<Rightarrow> regex" where
  "seq Never s = Never"
| "seq r Never = Never"
| "seq Empty s = s"
| "seq r Empty = r"
| "seq r s = Seq r s"

fun after :: "codeunit \<Rightarrow> regex \<Rightarrow> regex" where
  "after c Never = Never"
| "after c Empty = Never"
| "after c (Chars p) = (if p c then Empty else Never)"
| "after c (Seq r s) =
     (if nullable r then alt (seq (after c r) s) (after c s) else seq (after c r) s)"
| "after c (Alt r s) = alt (after c r) (after c s)"
| "after c (Star r) = seq (after c r) (Star r)"

fun test :: "regex \<Rightarrow> codeunit list \<Rightarrow> bool" where
  "test r [] = nullable r"
| "test r (c # cs) = test (after c r) cs"

text \<open>\<open>\w\<close> is a letter, a digit or the underscore; \<open>\s\<close> is \<open>isWhiteSpace\<close>.\<close>

definition isWord :: "codeunit \<Rightarrow> bool" where
  "isWord n \<longleftrightarrow>
     (48 \<le> n \<and> n \<le> 57) \<or> (65 \<le> n \<and> n \<le> 90) \<or> (97 \<le> n \<and> n \<le> 122) \<or> n = 95"

definition seqs :: "regex list \<Rightarrow> regex" where
  "seqs rs = foldr Seq rs Empty"

text \<open>
  \<^verbatim>\<open>/^\s*(\(\s*\)|\(\s*\w+\s*\)|\w+)\s*=>\s*{?\s*[\s\S]*\s*}?\s*$/\<close>,
  with the parenthesised group named.
\<close>

definition parameterGroup :: regex where
  "parameterGroup =
     Alt (seqs [Chars (\<lambda>c. c = cu CHR ''(''), Star (Chars isWhiteSpace), Chars (\<lambda>c. c = cu CHR '')'')])
      (Alt (seqs [Chars (\<lambda>c. c = cu CHR ''(''), Star (Chars isWhiteSpace),
                  Chars isWord, Star (Chars isWord),
                  Star (Chars isWhiteSpace), Chars (\<lambda>c. c = cu CHR '')'')])
           (seqs [Chars isWord, Star (Chars isWord)]))"

definition arrowFunctionRegex :: regex where
  "arrowFunctionRegex =
     seqs [Star (Chars isWhiteSpace),
           parameterGroup,
           Star (Chars isWhiteSpace),
           Chars (\<lambda>c. c = cu CHR ''=''), Chars (\<lambda>c. c = cu CHR ''>''),
           Star (Chars isWhiteSpace),
           Alt (Chars (\<lambda>c. c = cu CHR ''{'')) Empty,
           Star (Chars isWhiteSpace),
           Star (Chars (\<lambda>c. True)),
           Star (Chars isWhiteSpace),
           Alt (Chars (\<lambda>c. c = cu CHR ''}'')) Empty,
           Star (Chars isWhiteSpace)]"

section \<open>The language of a pattern\<close>

text \<open>
  What a pattern stands for, as a set of texts, and in words what
  \<open>arrowFunctionRegex\<close> is meant to accept: white space, then \<open>()\<close> or one parameter
  name in parentheses or one bare parameter name, then white space, the arrow, and
  anything.
\<close>

definition conc :: "codeunit list set \<Rightarrow> codeunit list set \<Rightarrow> codeunit list set" where
  "conc A B = {u @ v | u v. u \<in> A \<and> v \<in> B}"

inductive_set star :: "codeunit list set \<Rightarrow> codeunit list set" for A :: "codeunit list set" where
  star_empty: "[] \<in> star A"
| star_more: "u \<in> A \<Longrightarrow> v \<in> star A \<Longrightarrow> u @ v \<in> star A"

fun lang :: "regex \<Rightarrow> codeunit list set" where
  "lang Never = {}"
| "lang Empty = {[]}"
| "lang (Chars p) = {[c] | c. p c}"
| "lang (Seq r s) = conc (lang r) (lang s)"
| "lang (Alt r s) = lang r \<union> lang s"
| "lang (Star r) = star (lang r)"

definition plain_parameters :: "codeunit list \<Rightarrow> bool" where
  "plain_parameters ps \<longleftrightarrow>
     (\<exists>ws. ps = utf16 ''('' @ ws @ utf16 '')'' \<and> list_all isWhiteSpace ws) \<or>
     (\<exists>ws w ws'. ps = utf16 ''('' @ ws @ w @ ws' @ utf16 '')'' \<and> list_all isWhiteSpace ws \<and>
                  w \<noteq> [] \<and> list_all isWord w \<and> list_all isWhiteSpace ws') \<or>
     (ps \<noteq> [] \<and> list_all isWord ps)"

definition arrow_with_plain_parameters :: "codeunit list \<Rightarrow> bool" where
  "arrow_with_plain_parameters src \<longleftrightarrow>
     (\<exists>ws ps ws' rest. src = ws @ ps @ ws' @ utf16 ''=>'' @ rest \<and>
        list_all isWhiteSpace ws \<and> plain_parameters ps \<and> list_all isWhiteSpace ws')"

section \<open>IoCContainer\<close>

datatype ServiceLifetime = Scoped | Singleton | Transient

text \<open>
  An object created with \<open>new\<close>: its class, the arguments of the construction, and
  whether it can be made a string (an object whose \<open>toString\<close> is missing or throws
  cannot).
\<close>

record object =
  className :: string
  arguments :: "jsval list"
  convertible :: bool

text \<open>
  What a function registered as a definition does when it is called with the resolver:
  it returns, throws, calls the resolver on a name and goes on with what that call
  returned or threw, or creates an object of its own and goes on with it.
\<close>

datatype prog =
    Return jsval
  | Throw error
  | Resolve string "error + jsval \<Rightarrow> prog"
  | New object "jsval \<Rightarrow> prog"

text \<open>
  A definition is any value handed to \<open>register\<close>: a function without a prototype
  (an arrow function, say, with its source text; it cannot be used with \<open>new\<close>), a
  class or function with a prototype (its name, whether its instances can be made
  strings, and what the constructor body returns or throws on the arguments), or a
  value that is not a function.
\<close>

datatype defn =
    Function "codeunit list" prog
  | Class string bool "jsval list \<Rightarrow> error + jsval"
  | NotCallable jsval

record service =
  definition' :: defn
  dependencies :: "string list"
  serviceLifetime :: ServiceLifetime
  isArrowFunction :: bool

text \<open>
  The state the container works on: its two maps, the request-scoped store of
  \<open>express-http-context\<close> (one map per request context) and the objects created so
  far. A reference \<open>Ref a\<close> is the position \<open>a\<close> in \<open>heap\<close>.
\<close>

record state =
  services :: "string \<rightharpoonup> service"
  singletons :: "string \<rightharpoonup> jsval"
  httpContext :: "nat \<Rightarrow> string \<rightharpoonup> jsval"
  heap :: "object list"

text \<open>
  A call returns a value or throws, and leaves a state; \<open>None\<close> is a call that never
  returns (dependencies that go round in a circle).
\<close>

type_synonym 'a outcome = "((error + 'a) \<times> state) option"

text \<open>
  \<open>httpContext.get\<close> and \<open>httpContext.set\<close> act on the store of the active request
  context; with no active context \<open>get\<close> gives undefined and \<open>set\<close> does nothing.
\<close>

definition httpContext_get :: "nat option \<Rightarrow> string \<Rightarrow> state \<Rightarrow> jsval" where
  "httpContext_get ctx key st =
     (case ctx of None \<Rightarrow> Undefined
      | Some r \<Rightarrow> (case httpContext st r key of None \<Rightarrow> Undefined | Some v \<Rightarrow> v))"

definition httpContext_set :: "nat option \<Rightarrow> string \<Rightarrow> jsval \<Rightarrow> state \<Rightarrow> state" where
  "httpContext_set ctx key v st =
     (case ctx of None \<Rightarrow> st
      | Some r \<Rightarrow> st\<lparr>httpContext := (httpContext st)(r := (httpContext st r)(key \<mapsto> v))\<rparr>)"

text \<open>
  \<open>#register\<close>. The flag of the stored registration is
  \<open>typeof definition === 'function'\<close> and \<open>definition.prototype === undefined\<close>
  and the pattern on the source text, evaluated left to right.
\<close>

definition registration :: "defn \<Rightarrow> string list \<Rightarrow> ServiceLifetime \<Rightarrow> service" where
  "registration d deps lifetime =
     \<lparr>definition' = d,
      dependencies = deps,
      serviceLifetime = lifetime,
      isArrowFunction =
        (case d of
           Function src body \<Rightarrow> test arrowFunctionRegex src
         | Class nm conv ctor \<Rightarrow> False
         | NotCallable v \<Rightarrow> False)\<rparr>"

definition register :: "string \<Rightarrow> defn \<Rightarrow> string list \<Rightarrow> ServiceLifetime \<Rightarrow> state \<Rightarrow> state" where
  "register name d deps lifetime st =
     st\<lparr>services := (services st)(name \<mapsto> registration d deps lifetime)\<rparr>"

definition registerScoped :: "string \<Rightarrow> defn \<Rightarrow> string list \<Rightarrow> state \<Rightarrow> state" where
  "registerScoped name d deps st = register name d deps Scoped st"

definition registerSingleton :: "string \<Rightarrow> defn \<Rightarrow> string list \<Rightarrow> state \<Rightarrow> state" where
  "registerSingleton name d deps st = register name d deps Singleton st"

definition registerTransient :: "string \<Rightarrow> defn \<Rightarrow> string list \<Rightarrow> state \<Rightarrow> state" where
  "registerTransient name d deps st = register name d deps Transient st"

text \<open>
  A value in a template literal is made a string; a symbol, and an object that cannot
  be made a string, throw a TypeError there.
\<close>

definition converts_to_string :: "state \<Rightarrow> jsval \<Rightarrow> bool" where
  "converts_to_string st v =
     (case v of
        Symbol s \<Rightarrow> False
      | Ref a \<Rightarrow> a < length (heap st) \<and> convertible (heap st ! a)
      | _ \<Rightarrow> True)"

text \<open>
  The key of a scoped instance in the request store is the text
  \<open>ServiceLifetime.Scoped.\<close> followed by the name. The two caching resolvers take
  \<open>this.#createInstance\<close> as \<open>create\<close>. The scoped one tests the stored value with
  \<open>!instance\<close>, the singleton one the key with \<open>has\<close>. The scoped one builds two log
  messages from the instance, one right after reading it and one before returning;
  for an instance read from the store the second conversion repeats the first.
\<close>

definition scopedKey :: "string \<Rightarrow> string" where
  "scopedKey name = ''ServiceLifetime.Scoped.'' @ name"

definition resolveScopedInstance ::
  "(service \<Rightarrow> state \<Rightarrow> jsval outcome) \<Rightarrow> nat option \<Rightarrow> service \<Rightarrow> string \<Rightarrow> state \<Rightarrow> jsval outcome" where
  "resolveScopedInstance create ctx svc name st =
     (let instance = httpContext_get ctx (scopedKey name) st
      in if \<not> converts_to_string st instance then
           Some (Inl (TypeError ''Cannot convert to string''), st)
         else if \<not> truthy instance then
           (case create svc st of
              None \<Rightarrow> None
            | Some (Inl err, st') \<Rightarrow> Some (Inl err, st')
            | Some (Inr instance', st') \<Rightarrow>
                (let st'' = httpContext_set ctx (scopedKey name) instance' st'
                 in if \<not> converts_to_string st'' instance' then
                      Some (Inl (TypeError ''Cannot convert to string''), st'')
                    else Some (Inr instance', st'')))
         else Some (Inr instance, st))"

definition singletons_get :: "string \<Rightarrow> state \<Rightarrow> jsval" where
  "singletons_get name st = (case singletons st name of None \<Rightarrow> Undefined | Some v \<Rightarrow> v)"

definition resolveSingletonInstance ::
  "(service \<Rightarrow> state \<Rightarrow> jsval outcome) \<Rightarrow> service \<Rightarrow> string \<Rightarrow> state \<Rightarrow> jsval outcome" where
  "resolveSingletonInstance create svc name st =
     (if singletons st name = None then
        (case create svc st of
           None \<Rightarrow> None
         | Some (Inl err, st') \<Rightarrow> Some (Inl err, st')
         | Some (Inr singletonInstance, st') \<Rightarrow>
             (let st'' = st'\<lparr>singletons := (singletons st')(name \<mapsto> singletonInstance)\<rparr>
              in Some (Inr (singletons_get name st''), st'')))
      else Some (Inr (singletons_get name st), st))"

text \<open>
  \<open>new service.definition(...args)\<close>: the new object exists before the constructor body
  runs; when the body returns an object, that object is the result, and the new object
  otherwise.
\<close>

fun is_object :: "jsval \<Rightarrow> bool" where
  "is_object (Ref a) = True"
| "is_object (Obj kvs) = True"
| "is_object v = False"

fun construct :: "defn \<Rightarrow> jsval list \<Rightarrow> state \<Rightarrow> (error + jsval) \<times> state" where
  "construct (Class nm conv ctor) args st =
     (let this = Ref (length (heap st));
          st' = st\<lparr>heap := heap st @ [\<lparr>className = nm, arguments = args, convertible = conv\<rparr>]\<rparr>
      in case ctor args of
           Inl err \<Rightarrow> (Inl err, st')
         | Inr returned \<Rightarrow> (Inr (if is_object returned then returned else this), st'))"
| "construct (Function src body) args st = (Inl (TypeError ''service.definition is not a constructor''), st)"
| "construct (NotCallable v) args st = (Inl (TypeError ''service.definition is not a constructor''), st)"

text \<open>
  \<open>resolve\<close>, \<open>#createInstance\<close>, the \<open>map\<close> over the dependencies and the run of a
  factory body. The first argument bounds the depth of nested constructions and the
  steps of a factory body; \<open>ctx\<close> is the active request context, if any. The calls
  of the logger are left out.
\<close>

function (sequential) resolve :: "nat \<Rightarrow> nat option \<Rightarrow> string \<Rightarrow> state \<Rightarrow> jsval outcome"
and createInstance :: "nat \<Rightarrow> nat option \<Rightarrow> service \<Rightarrow> state \<Rightarrow> jsval outcome"
and resolveAll :: "nat \<Rightarrow> nat option \<Rightarrow> string list \<Rightarrow> state \<Rightarrow> (jsval list) outcome"
and call :: "nat \<Rightarrow> nat option \<Rightarrow> prog \<Rightarrow> state \<Rightarrow> jsval outcome"
where
  "resolve k ctx name st =
     (case services st name of
        None \<Rightarrow> Some (Inl (Error (''Service '' @ [CHR 0x27] @ name @ [CHR 0x27] @ '' not found.'')), st)
      | Some svc \<Rightarrow>
          if serviceLifetime svc = Singleton then
            resolveSingletonInstance (createInstance k ctx) svc name st
          else if serviceLifetime svc = Scoped then
            resolveScopedInstance (createInstance k ctx) ctx svc name st
          else createInstance k ctx svc st)"
| "createInstance 0 ctx svc st = None"
| "createInstance (Suc k) ctx svc st =
     (if isArrowFunction svc then
        (case definition' svc of
           Function src body \<Rightarrow> call k ctx body st
         | Class nm conv ctor \<Rightarrow> Some (Inl (TypeError ''service.definition is not a function''), st)
         | NotCallable v \<Rightarrow> Some (Inl (TypeError ''service.definition is not a function''), st))
      else
        (case resolveAll k ctx (dependencies svc) st of
           None \<Rightarrow> None
         | Some (Inl err, st') \<Rightarrow> Some (Inl err, st')
         | Some (Inr args, st') \<Rightarrow> Some (construct (definition' svc) args st')))"
| "resolveAll k ctx [] st = Some (Inr [], st)"
| "resolveAll k ctx (d # ds) st =
     (case resolve k ctx d st of
        None \<Rightarrow> None
      | Some (Inl err, st') \<Rightarrow> Some (Inl err, st')
      | Some (Inr v, st') \<Rightarrow>
          (case resolveAll k ctx ds st' of
             None \<Rightarrow> None
           | Some (Inl err, st'') \<Rightarrow> Some (Inl err, st'')
           | Some (Inr vs, st'') \<Rightarrow> Some (Inr (v # vs), st'')))"
| "call k ctx (Return v) st = Some (Inr v, st)"
| "call k ctx (Throw err) st = Some (Inl err, st)"
| "call 0 ctx (Resolve name cont) st = None"
| "call (Suc k) ctx (Resolve name cont) st =
     (case resolve k ctx name st of
        None \<Rightarrow> None
      | Some (r, st') \<Rightarrow> call k ctx (cont r) st')"
| "call 0 ctx (New obj cont) st = None"
| "call (Suc k) ctx (New obj cont) st =
     call k ctx (cont (Ref (length (heap st)))) (st\<lparr>heap := heap st @ [obj]\<rparr>)"
  by pat_completeness auto

termination
  by (relation "inv_image (less_than <*lex*> less_than <*lex*> less_than)
        (\<lambda>x. case x of
           Inl (Inl (k, ctx, name, st)) \<Rightarrow> (k, 1::nat, 0::nat)
         | Inl (Inr (k, ctx, svc, st)) \<Rightarrow> (k, 0, 0)
         | Inr (Inl (k, ctx, ds, st)) \<Rightarrow> (k, 2, length ds)
         | Inr (Inr (k, ctx, p, st)) \<Rightarrow> (k, 0, 0))") auto

text \<open>The equation of \<open>resolve\<close> applies to every call; it is unfolded on request only.\<close>

declare resolve.simps [simp del]

definition new_container :: state where
  "new_container = \<lparr>services = Map.empty, singletons = Map.empty,
                     httpContext = (\<lambda>r. Map.empty), heap = []\<rparr>"




text \<open>
  What a call may do to the state it starts from: registrations stay, objects are only
  added, cached singletons stay, the store of every request context other than the
  active one stays, and a truthy instance in any request store stays.
\<close>

definition extends :: "nat option \<Rightarrow> state \<Rightarrow> state \<Rightarrow> bool" where
  "extends ctx st st' \<longleftrightarrow>
     services st' = services st \<and>
     (\<exists>created. heap st' = heap st @ created) \<and>
     singletons st \<subseteq>\<^sub>m singletons st' \<and>
     (\<forall>r. ctx \<noteq> Some r \<longrightarrow> httpContext st' r = httpContext st r) \<and>
     (\<forall>r key v. httpContext st r key = Some v \<and> truthy v \<longrightarrow> httpContext st' r key = Some v)"

section \<open>Sample inputs\<close>

definition demo_env :: env where
  "demo_env = \<lparr>SERVICE_PROVIDER_OAUTH_URL = ''https://gitlab.lnu.se/oauth'', CLIENT_ID = ''id'',
                CLIENT_SECRET = ''secret'', REDIRECT_URI = ''https://app/auth/callback''\<rparr>"

definition demo_tokens :: jsval where
  "demo_tokens = Obj [(''access_token'', Str ''at''), (''id_token'', Str ''it'')]"

definition demo_container :: state where
  "demo_container =
     registerSingleton ''AuthController'' (Class ''AuthController'' True (\<lambda>args. Inr Undefined))
       [''AuthService'']
       (registerSingleton ''AuthService'' (Class ''AuthService'' True (\<lambda>args. Inr Undefined)) []
          new_container)"




text \<open>
  Two factories that resolve their own name while the first construction is under way
  (the first object created stands for the flag that says so).
\<close>

definition reentrant :: defn where
  "reentrant =
     Function (utf16 ''r => { const me = new Node(); if (first) { first = false; new Seen(r(`Node`)) } return me }'')
       (New \<lparr>className = ''Node'', arguments = [], convertible = True\<rparr>
          (\<lambda>me. if me = Ref 0
                then Resolve ''Node''
                       (\<lambda>res. case res of
                                Inl err \<Rightarrow> Throw err
                              | Inr inner \<Rightarrow>
                                  New \<lparr>className = ''Seen'', arguments = [inner], convertible = True\<rparr>
                                    (\<lambda>seen. Return me))
                else Return me))"






section \<open>Properties of the token exchange\<close>

text \<open>
  C6. For every session and every failing token exchange the session is left as it
  was, an error is handed to the error responder and nothing redirects; the redirect to
  /home happens exactly when the exchange succeeds, and then the token payload is the
  session's user.
\<close>

theorem authorize_exchange:
  "(exchange_fails (post (SERVICE_PROVIDER_OAUTH_URL e @ ''/token'') (token_request e code)) \<longrightarrow>
      fst (authorize conv e post code s) = s \<and>
      (\<exists>err. snd (authorize conv e post code s) = [Next (conv (HttpError err))]) \<and>
      Redirect ''/home'' \<notin> set (snd (authorize conv e post code s))) \<and>
   (Redirect ''/home'' \<in> set (snd (authorize conv e post code s)) \<longleftrightarrow>
      \<not> exchange_fails (post (SERVICE_PROVIDER_OAUTH_URL e @ ''/token'') (token_request e code))) \<and>
   (\<not> exchange_fails (post (SERVICE_PROVIDER_OAUTH_URL e @ ''/token'') (token_request e code)) \<longrightarrow>
      user (fst (authorize conv e post code s)) =
        token_payload (post (SERVICE_PROVIDER_OAUTH_URL e @ ''/token'') (token_request e code)) \<and>
      snd (authorize conv e post code s) = [Redirect ''/home''])"
  by (cases "post (SERVICE_PROVIDER_OAUTH_URL e @ ''/token'') (token_request e code)")
     (auto simp: authorize_def authorizeUser_def)

theorem authorize_exchange_witness:
  "authorize id demo_env (\<lambda>u f. Response 401 Null) (Str ''c'') \<lparr>user = Undefined\<rparr>
     = (\<lparr>user = Undefined\<rparr>, [Next (HttpError (AxiosError ''Request failed''))]) \<and>
   authorize id demo_env (\<lambda>u f. Response 200 demo_tokens) (Str ''c'') \<lparr>user = Undefined\<rparr>
     = (\<lparr>user = demo_tokens\<rparr>, [Redirect ''/home''])"
  using authorize_exchange [of "\<lambda>u f. Response 401 Null" demo_env "Str ''c''" id "\<lparr>user = Undefined\<rparr>"]
        authorize_exchange [of "\<lambda>u f. Response 200 demo_tokens" demo_env "Str ''c''" id "\<lparr>user = Undefined\<rparr>"]
  by (simp add: authorize_def authorizeUser_def)

section \<open>Properties of the resource actions\<close>

lemma request_page_clamped:
  "0 < l \<Longrightarrow>
   fetchActivities get (Obj [(''access_token'', tok)]) (Some (Fin p)) (Some (Fin l)) = (rqs, pr) \<Longrightarrow>
     \<exists>q. map params rqs = [[(''per_page'', Fin l), (''page'', Fin q)]] \<and>
         q \<le> - ((- 120) div l) \<and> (p \<le> - ((- 120) div l) \<longrightarrow> q = p)"
  by (auto simp: fetchActivities_def totalActivities_def Let_def)

text \<open>
  C1. The requested page is clamped to \<open>totalPages = ceil(120/limit)\<close>, and with
  limit=20 the view model never carries a page above 6. The clamped value is computed
  for the request only (\<open>request_page_clamped\<close>); the view model gets the page as it was
  asked. For \<open>GET /activities?page=7&limit=20\<close> the events endpoint is asked for page 6
  and the view model says page 7 of 6.
\<close>

theorem activities_page_beyond_ceiling:
  "activities conv (\<lambda>rq. Response 200 body) [(''page'', utf16 ''7''), (''limit'', utf16 ''20'')] \<lparr>user = demo_tokens\<rparr> =
     ([\<lparr>url = ''https://gitlab.lnu.se/api/v4/events'',
        params = [(''per_page'', Fin 20), (''page'', Fin 6)],
        bearer = Str ''at''\<rparr>],
      [Render ''activities''
         (APromise (Fulfilled (Obj [(''activities'', body),
                                    (''page'', Num (Fin 7)),
                                    (''totalPages'', Num (Fin 6)),
                                    (''limit'', Num (Fin 20))])))])"
  by (simp add: activities_def fetchActivities_def parseInt_def isWhiteSpace_def digit_def
        round_to_double_def utf16_def cu_def totalActivities_def call_async_def demo_tokens_def Let_def)

lemma controller_never_calls_next:
  "Next err \<notin> set (profile conv jwtDecode graphql s)"
  "Next err \<notin> set (snd (activities conv get q s))"
  "Next err \<notin> set (groups conv graphql s)"
  by (simp_all add: profile_def activities_def groups_def call_async_def split: prod.splits)

text \<open>
  C2. Every error of a service call is caught by the controller and handed to \<open>next\<close>.
  The three actions do not await the service, so a failing call is a rejected promise
  that goes to \<open>res.render\<close> as the locals; \<open>next\<close> is not called
  (\<open>controller_never_calls_next\<close>). Here the GraphQL call fails with 401 and the events
  endpoint answers 500.
\<close>

theorem service_error_not_caught:
  "profile conv (\<lambda>t. Inr (Obj [])) (\<lambda>t q. Inl (Error ''401'')) \<lparr>user = demo_tokens\<rparr> =
     [Render ''profile'' (APromise (Rejected (HttpError (Error ''401''))))] \<and>
   snd (activities conv (\<lambda>rq. Response 500 Null) [] \<lparr>user = demo_tokens\<rparr>) =
     [Render ''activities'' (APromise (Rejected (HttpError (AxiosError ''Request failed''))))] \<and>
   groups conv (\<lambda>t q. Inl (Error ''401'')) \<lparr>user = demo_tokens\<rparr> =
     [Render ''groups'' (Groups (Rejected (HttpError (Error ''401''))))]"
  by (simp add: profile_def activities_def groups_def fetchProfile_def fetchActivities_def fetchGroups_def
      call_async_def demo_tokens_def Let_def parseInt_def isWhiteSpace_def digit_def
      round_to_double_def utf16_def cu_def totalActivities_def)

lemma fetchActivities_defaults:
  "fetchActivities (\<lambda>rq. Response 200 body) demo_tokens None None =
     ([\<lparr>url = ''https://gitlab.lnu.se/api/v4/events'',
        params = [(''per_page'', Fin 20), (''page'', Fin 1)],
        bearer = Str ''at''\<rparr>],
      Fulfilled (Obj [(''activities'', body),
                                    (''page'', Num (Fin 1)),
                                    (''totalPages'', Num (Fin 6)),
                                    (''limit'', Num (Fin 20))]))"
  by (simp add: fetchActivities_def totalActivities_def demo_tokens_def Let_def)

text \<open>
  C3. With page and limit absent the action behaves as for page=1 and limit=20. The
  defaults of \<open>fetchActivities\<close> apply to an absent argument only
  (\<open>fetchActivities_defaults\<close>), and the controller passes \<open>parseInt(undefined)\<close>, which
  is NaN: for \<open>GET /activities\<close> the endpoint is asked per_page=NaN and page=NaN, and
  the view model carries NaN three times.
\<close>

theorem activities_absent_parameters:
  "activities conv (\<lambda>rq. Response 200 body) [] \<lparr>user = demo_tokens\<rparr> =
     ([\<lparr>url = ''https://gitlab.lnu.se/api/v4/events'',
        params = [(''per_page'', NaN), (''page'', NaN)],
        bearer = Str ''at''\<rparr>],
      [Render ''activities''
         (APromise (Fulfilled (Obj [(''activities'', body),
                                    (''page'', Num NaN),
                                    (''totalPages'', Num NaN),
                                    (''limit'', Num NaN)])))])"
  by (simp add: activities_def fetchActivities_def parseInt_def isWhiteSpace_def digit_def
        round_to_double_def utf16_def cu_def totalActivities_def call_async_def demo_tokens_def Let_def)

section \<open>Properties of the source pattern\<close>

lemma conc_empty_right: "conc A {[]} = A"
  by (auto simp: conc_def)

lemma conc_Nil_left: "[] \<in> A \<Longrightarrow> w \<in> B \<Longrightarrow> w \<in> conc A B"
  unfolding conc_def by (rule CollectI, rule exI [of _ "[]"], rule exI [of _ w]) simp

lemma conc_Nil_right: "[] \<in> B \<Longrightarrow> w \<in> A \<Longrightarrow> w \<in> conc A B"
  unfolding conc_def by (rule CollectI, rule exI [of _ w], rule exI [of _ "[]"]) simp

lemma Nil_in_conc: "[] \<in> conc A B \<longleftrightarrow> [] \<in> A \<and> [] \<in> B"
  by (auto simp: conc_def)

lemma Cons_in_conc:
  "c # w \<in> conc A B \<longleftrightarrow> ([] \<in> A \<and> c # w \<in> B) \<or> (\<exists>u v. w = u @ v \<and> c # u \<in> A \<and> v \<in> B)"
proof
  assume "c # w \<in> conc A B"
  then obtain u v where uv: "c # w = u @ v" "u \<in> A" "v \<in> B" by (auto simp: conc_def)
  show "([] \<in> A \<and> c # w \<in> B) \<or> (\<exists>u v. w = u @ v \<and> c # u \<in> A \<and> v \<in> B)"
  proof (cases u)
    case Nil
    with uv show ?thesis by simp
  next
    case (Cons a u')
    with uv have "w = u' @ v" "c # u' \<in> A" by simp_all
    with uv(3) show ?thesis by blast
  qed
next
  assume "([] \<in> A \<and> c # w \<in> B) \<or> (\<exists>u v. w = u @ v \<and> c # u \<in> A \<and> v \<in> B)"
  then show "c # w \<in> conc A B"
  proof
    assume "[] \<in> A \<and> c # w \<in> B"
    then show ?thesis by (simp add: conc_Nil_left)
  next
    assume "\<exists>u v. w = u @ v \<and> c # u \<in> A \<and> v \<in> B"
    then obtain u v where "w = u @ v" "c # u \<in> A" "v \<in> B" by blast
    then have "c # w = (c # u) @ v \<and> c # u \<in> A \<and> v \<in> B" by simp
    then show ?thesis unfolding conc_def by blast
  qed
qed

lemma Cons_in_star_D:
  "x \<in> star A \<Longrightarrow> x = c # w \<Longrightarrow> \<exists>u v. w = u @ v \<and> c # u \<in> A \<and> v \<in> star A"
proof (induction arbitrary: w rule: star.induct)
  case star_empty
  then show ?case by simp
next
  case (star_more u v)
  show ?case
  proof (cases u)
    case Nil
    with star_more.prems have "v = c # w" by simp
    from star_more.IH [OF this] show ?thesis .
  next
    case (Cons a u')
    with star_more.prems have "w = u' @ v" "a = c" by simp_all
    with Cons star_more.hyps show ?thesis by blast
  qed
qed

lemma Cons_in_star:
  "c # w \<in> star A \<longleftrightarrow> (\<exists>u v. w = u @ v \<and> c # u \<in> A \<and> v \<in> star A)"
proof
  assume "c # w \<in> star A"
  from Cons_in_star_D [OF this refl] show "\<exists>u v. w = u @ v \<and> c # u \<in> A \<and> v \<in> star A" .
next
  assume "\<exists>u v. w = u @ v \<and> c # u \<in> A \<and> v \<in> star A"
  then obtain u v where "w = u @ v" "c # u \<in> A" "v \<in> star A" by blast
  then show "c # w \<in> star A" using star_more [of "c # u" A v] by simp
qed

lemma lang_alt: "lang (alt r s) = lang r \<union> lang s"
  by (induction r s rule: alt.induct) simp_all

lemma conc_empty_set: "conc {} B = {}" "conc A {} = {}"
  by (simp_all add: conc_def)

lemma conc_Nil_set: "conc {[]} B = B"
  by (auto simp: conc_def)

lemma lang_seq: "lang (seq r s) = conc (lang r) (lang s)"
  by (induction r s rule: seq.induct)
     (simp_all add: conc_empty_set conc_Nil_set conc_empty_right)

lemma nullable_lang: "nullable r \<longleftrightarrow> [] \<in> lang r"
  by (induction r) (auto simp: Nil_in_conc star_empty)

lemma in_conc_iff: "w \<in> conc A B \<longleftrightarrow> (\<exists>u v. w = u @ v \<and> u \<in> A \<and> v \<in> B)"
  by (auto simp: conc_def)

lemma lang_after: "w \<in> lang (after c r) \<longleftrightarrow> c # w \<in> lang r"
proof (induction r arbitrary: w)
  case (Seq r s)
  have A: "w \<in> conc (lang (after c r)) (lang s) \<longleftrightarrow>
             (\<exists>u v. w = u @ v \<and> c # u \<in> lang r \<and> v \<in> lang s)"
    by (simp add: in_conc_iff Seq.IH(1))
  show ?case
    by (simp add: lang_alt lang_seq A Cons_in_conc nullable_lang Seq.IH(2)) blast
next
  case (Star r)
  have "w \<in> conc (lang (after c r)) (star (lang r)) \<longleftrightarrow>
          (\<exists>u v. w = u @ v \<and> c # u \<in> lang r \<and> v \<in> star (lang r))"
    by (simp add: in_conc_iff Star.IH)
  then show ?case
    by (simp add: lang_seq Cons_in_star)
next
  case (Alt r s)
  then show ?case by (simp add: lang_alt)
qed auto

lemma test_lang: "test r w \<longleftrightarrow> w \<in> lang r"
  by (induction w arbitrary: r) (simp_all add: nullable_lang lang_after)

lemma star_Chars: "star {[c] | c. p c} = {w. list_all p w}"
proof (intro equalityI subsetI)
  fix w assume "w \<in> star {[c] | c. p c}"
  then show "w \<in> {w. list_all p w}"
    by (induction rule: star.induct) auto
next
  fix w assume "w \<in> {w. list_all p w}"
  then have "list_all p w" by simp
  then show "w \<in> star {[c] | c. p c}"
  proof (induction w)
    case Nil
    show ?case by (rule star_empty)
  next
    case (Cons c w)
    then have "[c] \<in> {[c] | c. p c}" and "w \<in> star {[c] | c. p c}" by auto
    from star_more [OF this] show ?case by simp
  qed
qed

lemma lang_Star_Chars: "lang (Star (Chars p)) = {w. list_all p w}"
  by (simp add: star_Chars)

lemma lang_Chars_eq: "lang (Chars (\<lambda>c. c = x)) = {[x]}"
  by auto

lemma concI: "u \<in> A \<Longrightarrow> v \<in> B \<Longrightarrow> u @ v \<in> conc A B"
  by (auto simp: conc_def)

lemma in_conc_single: "w \<in> conc {[c]} B \<longleftrightarrow> (\<exists>v. w = c # v \<and> v \<in> B)"
  by (auto simp: conc_def)

lemma in_conc_Chars: "w \<in> conc {[c] | c. p c} B \<longleftrightarrow> (\<exists>c v. w = c # v \<and> p c \<and> v \<in> B)"
proof
  assume "w \<in> conc {[c] | c. p c} B"
  then show "\<exists>c v. w = c # v \<and> p c \<and> v \<in> B" by (auto simp: conc_def)
next
  assume "\<exists>c v. w = c # v \<and> p c \<and> v \<in> B"
  then obtain c v where w: "w = c # v" and "p c" "v \<in> B" by blast
  then have "[c] @ v \<in> conc {[c] | c. p c} B" by (intro concI) auto
  with w show "w \<in> conc {[c] | c. p c} B" by simp
qed

lemma lang_tail:
  "lang (seqs [Star (Chars isWhiteSpace),
           Alt (Chars (\<lambda>c. c = cu CHR ''{'')) Empty,
           Star (Chars isWhiteSpace),
           Star (Chars (\<lambda>c. True)),
           Star (Chars isWhiteSpace),
           Alt (Chars (\<lambda>c. c = cu CHR ''}'')) Empty,
           Star (Chars isWhiteSpace)]) = UNIV"
proof -
  let ?WS = "{w. list_all isWhiteSpace w}"
  let ?OB = "lang (Alt (Chars (\<lambda>c. c = cu CHR ''{'')) Empty)"
  let ?CB = "lang (Alt (Chars (\<lambda>c. c = cu CHR ''}'')) Empty)"
  have any: "{w :: codeunit list. list_all (\<lambda>c. True) w} = UNIV"
    by (auto simp: list_all_iff)
  have eq: "lang (seqs [Star (Chars isWhiteSpace),
           Alt (Chars (\<lambda>c. c = cu CHR ''{'')) Empty,
           Star (Chars isWhiteSpace),
           Star (Chars (\<lambda>c. True)),
           Star (Chars isWhiteSpace),
           Alt (Chars (\<lambda>c. c = cu CHR ''}'')) Empty,
           Star (Chars isWhiteSpace)])
      = conc ?WS (conc ?OB (conc ?WS (conc UNIV (conc ?WS (conc ?CB ?WS)))))"
    by (simp only: seqs_def foldr.simps o_apply id_apply lang.simps(2,4) conc_empty_right
          lang_Star_Chars any)
  have e: "[] \<in> conc ?WS (conc ?CB ?WS)"
    by (simp add: Nil_in_conc)
  have "w \<in> conc ?WS (conc ?OB (conc ?WS (conc UNIV (conc ?WS (conc ?CB ?WS)))))" for w :: "codeunit list"
  proof -
    have "w \<in> conc UNIV (conc ?WS (conc ?CB ?WS))"
      by (rule conc_Nil_right [OF e]) simp
    then have "w \<in> conc ?WS (conc UNIV (conc ?WS (conc ?CB ?WS)))"
      by (rule conc_Nil_left [rotated]) simp
    then have "w \<in> conc ?OB (conc ?WS (conc UNIV (conc ?WS (conc ?CB ?WS))))"
      by (rule conc_Nil_left [rotated]) simp
    then show ?thesis
      by (rule conc_Nil_left [rotated]) simp
  qed
  then show ?thesis
    unfolding eq by blast
qed

lemma lang_parameterGroup: "w \<in> lang parameterGroup \<longleftrightarrow> plain_parameters w"
proof -
  let ?WS = "{w. list_all isWhiteSpace w}"
  let ?W = "{w. list_all isWord w}"
  let ?lp = "cu CHR ''(''"
  let ?rp = "cu CHR '')''"
  have 1: "w \<in> lang (seqs [Chars (\<lambda>c. c = ?lp), Star (Chars isWhiteSpace), Chars (\<lambda>c. c = ?rp)])
        \<longleftrightarrow> (\<exists>ws. w = [?lp] @ ws @ [?rp] \<and> list_all isWhiteSpace ws)"
    by (auto simp: seqs_def lang_Chars_eq star_Chars conc_empty_right in_conc_single in_conc_iff)
  have l2: "lang (seqs [Chars (\<lambda>c. c = ?lp), Star (Chars isWhiteSpace),
                  Chars isWord, Star (Chars isWord),
                  Star (Chars isWhiteSpace), Chars (\<lambda>c. c = ?rp)])
      = conc {[?lp]} (conc ?WS (conc {[c] | c. isWord c} (conc ?W (conc ?WS {[?rp]}))))"
    by (simp add: seqs_def lang_Chars_eq star_Chars conc_empty_right)
  have 2: "w \<in> lang (seqs [Chars (\<lambda>c. c = ?lp), Star (Chars isWhiteSpace),
                  Chars isWord, Star (Chars isWord),
                  Star (Chars isWhiteSpace), Chars (\<lambda>c. c = ?rp)])
        \<longleftrightarrow> (\<exists>ws x ws'. w = [?lp] @ ws @ x @ ws' @ [?rp] \<and> list_all isWhiteSpace ws \<and>
                  x \<noteq> [] \<and> list_all isWord x \<and> list_all isWhiteSpace ws')" (is "?L \<longleftrightarrow> ?R")
  proof
    assume ?L
    then obtain ws c x ws' where "w = ?lp # ws @ c # x @ ws' @ [?rp]" "list_all isWhiteSpace ws"
      "isWord c" "list_all isWord x" "list_all isWhiteSpace ws'"
      by (auto simp: l2 in_conc_single in_conc_iff in_conc_Chars)
    then have "w = [?lp] @ ws @ (c # x) @ ws' @ [?rp] \<and> list_all isWhiteSpace ws \<and>
                  c # x \<noteq> [] \<and> list_all isWord (c # x) \<and> list_all isWhiteSpace ws'" by simp
    then show ?R by blast
  next
    assume ?R
    then obtain ws x ws' where w: "w = [?lp] @ ws @ x @ ws' @ [?rp]" and h: "list_all isWhiteSpace ws"
      "x \<noteq> []" "list_all isWord x" "list_all isWhiteSpace ws'" by blast
    from h(2) obtain c x' where x: "x = c # x'" by (cases x) auto
    have "[?lp] @ ws @ [c] @ x' @ ws' @ [?rp]
        \<in> conc {[?lp]} (conc ?WS (conc {[c] | c. isWord c} (conc ?W (conc ?WS {[?rp]}))))"
      using h x by (intro concI) auto
    with w x show ?L by (simp add: l2)
  qed
  have 3: "w \<in> lang (seqs [Chars isWord, Star (Chars isWord)]) \<longleftrightarrow> w \<noteq> [] \<and> list_all isWord w"
    by (cases w) (auto simp: seqs_def star_Chars conc_empty_right in_conc_Chars)
  have u: "utf16 ''('' = [?lp]" "utf16 '')'' = [?rp]"
    by (simp_all add: utf16_def)
  show ?thesis
    unfolding parameterGroup_def plain_parameters_def lang.simps Un_iff 1 2 3 u ..
qed

lemma lang_arrowFunctionRegex: "w \<in> lang arrowFunctionRegex \<longleftrightarrow> arrow_with_plain_parameters w"
proof -
  let ?WS = "{w. list_all isWhiteSpace w}"
  let ?eq = "cu CHR ''=''"
  let ?gt = "cu CHR ''>''"
  have split: "arrowFunctionRegex =
      Seq (Star (Chars isWhiteSpace)) (Seq parameterGroup (Seq (Star (Chars isWhiteSpace))
        (Seq (Chars (\<lambda>c. c = ?eq)) (Seq (Chars (\<lambda>c. c = ?gt))
          (seqs [Star (Chars isWhiteSpace),
           Alt (Chars (\<lambda>c. c = cu CHR ''{'')) Empty,
           Star (Chars isWhiteSpace),
           Star (Chars (\<lambda>c. True)),
           Star (Chars isWhiteSpace),
           Alt (Chars (\<lambda>c. c = cu CHR ''}'')) Empty,
           Star (Chars isWhiteSpace)])))))"
    by (simp add: arrowFunctionRegex_def seqs_def)
  have l: "lang arrowFunctionRegex =
      conc ?WS (conc (lang parameterGroup) (conc ?WS (conc {[?eq]} (conc {[?gt]} UNIV))))"
    unfolding split by (simp add: lang_tail star_Chars)
  have u: "utf16 ''=>'' = [?eq, ?gt]"
    by (simp add: utf16_def)
  show ?thesis
  proof
    assume "w \<in> lang arrowFunctionRegex"
    then obtain ws ps ws' rest where "w = ws @ ps @ ws' @ ?eq # ?gt # rest"
      "list_all isWhiteSpace ws" "plain_parameters ps" "list_all isWhiteSpace ws'"
      by (auto simp: l in_conc_iff in_conc_single lang_parameterGroup)
    then have "w = ws @ ps @ ws' @ utf16 ''=>'' @ rest \<and>
        list_all isWhiteSpace ws \<and> plain_parameters ps \<and> list_all isWhiteSpace ws'"
      by (simp add: u)
    then show "arrow_with_plain_parameters w"
      unfolding arrow_with_plain_parameters_def by blast
  next
    assume "arrow_with_plain_parameters w"
    then obtain ws ps ws' rest where w: "w = ws @ ps @ ws' @ utf16 ''=>'' @ rest" and
      h: "list_all isWhiteSpace ws" "plain_parameters ps" "list_all isWhiteSpace ws'"
      unfolding arrow_with_plain_parameters_def by blast
    have "ws @ ps @ ws' @ [?eq] @ [?gt] @ rest
        \<in> conc ?WS (conc (lang parameterGroup) (conc ?WS (conc {[?eq]} (conc {[?gt]} UNIV))))"
      using h by (intro concI) (auto simp: lang_parameterGroup)
    with w show "w \<in> lang arrowFunctionRegex" by (simp add: l u)
  qed
qed

lemma test_arrowFunctionRegex: "test arrowFunctionRegex src \<longleftrightarrow> arrow_with_plain_parameters src"
  by (simp add: test_lang lang_arrowFunctionRegex)

section \<open>Properties of the container\<close>

text \<open>
  C8. Resolving a name that has no registration throws the error
  "Service '<name>' not found." and changes nothing; it never returns a value.
\<close>

theorem resolve_unregistered:
  "services st name = None \<Longrightarrow>
     resolve k ctx name st =
       Some (Inl (Error (''Service '' @ [CHR 0x27] @ name @ [CHR 0x27] @ '' not found.'')), st)"
  by (simp add: resolve.simps)

theorem resolve_unregistered_witness:
  "services (registerSingleton ''AuthService'' (Class ''AuthService'' True (\<lambda>args. Inr Undefined)) [] new_container) ''Missing'' = None \<and>
   resolve 3 None ''Missing'' (registerSingleton ''AuthService'' (Class ''AuthService'' True (\<lambda>args. Inr Undefined)) [] new_container) =
     Some (Inl (Error (''Service '' @ [CHR 0x27] @ ''Missing'' @ [CHR 0x27] @ '' not found.'')),
           registerSingleton ''AuthService'' (Class ''AuthService'' True (\<lambda>args. Inr Undefined)) [] new_container)"
proof -
  have h: "services (registerSingleton ''AuthService'' (Class ''AuthService'' True (\<lambda>args. Inr Undefined)) [] new_container) ''Missing'' = None"
    by (simp add: registerSingleton_def register_def registration_def new_container_def)
  show ?thesis using h resolve_unregistered [OF h, of 3 None] by simp
qed

subsection \<open>What a resolution leaves unchanged\<close>

lemma extends_refl: "extends ctx st st"
  by (simp add: extends_def)

lemma extends_trans: "extends ctx st st' \<Longrightarrow> extends ctx st' st'' \<Longrightarrow> extends ctx st st''"
  unfolding extends_def by (auto intro: map_le_trans)

lemma extends_httpContext_set:
  assumes "extends ctx st st'" and "\<not> truthy (httpContext_get ctx key st)"
  shows "extends ctx st (httpContext_set ctx key v st')"
proof (cases ctx)
  case None
  with assms(1) show ?thesis by (simp add: httpContext_set_def)
next
  case (Some r)
  with assms(2) have "\<And>w. httpContext st r key = Some w \<Longrightarrow> \<not> truthy w"
    by (simp add: httpContext_get_def)
  with assms(1) Some show ?thesis
    unfolding extends_def httpContext_set_def by auto
qed

lemma extends_alloc: "extends ctx st (st\<lparr>heap := heap st @ [obj]\<rparr>)"
  by (simp add: extends_def)

lemma extends_singleton:
  "singletons st name = None \<Longrightarrow> extends ctx st st' \<Longrightarrow>
     extends ctx st (st'\<lparr>singletons := (singletons st')(name \<mapsto> v)\<rparr>)"
  by (auto simp: extends_def map_le_def dom_def)

lemma construct_extends: "construct d args st = (r, st') \<Longrightarrow> extends ctx st st'"
  by (cases d) (auto simp: extends_refl extends_alloc Let_def split: sum.splits)

lemma resolveSingletonInstance_extends:
  assumes "\<And>r st'. create svc st = Some (r, st') \<Longrightarrow> extends ctx st st'"
      and "resolveSingletonInstance create svc name st = Some (r, st')"
  shows "extends ctx st st'"
  using assms
  by (auto simp: resolveSingletonInstance_def Let_def extends_refl extends_singleton
           split: if_splits option.splits sum.splits prod.splits)

lemma resolveScopedInstance_extends:
  assumes "\<And>r st'. create svc st = Some (r, st') \<Longrightarrow> extends ctx st st'"
      and "resolveScopedInstance create ctx svc name st = Some (r, st')"
  shows "extends ctx st st'"
  using assms
  by (auto simp: resolveScopedInstance_def Let_def extends_refl extends_httpContext_set
           split: if_splits option.splits sum.splits prod.splits)

lemma resolve_extends_all:
  "\<And>r st'. resolve k ctx name st = Some (r, st') \<Longrightarrow> extends ctx st st'"
  "\<And>r st'. createInstance k ctx svc st = Some (r, st') \<Longrightarrow> extends ctx st st'"
  "\<And>rs st'. resolveAll k ctx ds st = Some (rs, st') \<Longrightarrow> extends ctx st st'"
  "\<And>r st'. call k ctx p st = Some (r, st') \<Longrightarrow> extends ctx st st'"
proof (induction k ctx name st and k ctx svc st and k ctx ds st and k ctx p st
       rule: resolve_createInstance_resolveAll_call.induct)
  case (1 k ctx name st)
  show ?case
  proof (cases "services st name")
    case None
    with "1.prems" show ?thesis by (simp add: resolve.simps extends_refl)
  next
    case (Some svc)
    show ?thesis
    proof (cases "serviceLifetime svc")
      case Scoped
      with Some "1.prems" have "resolveScopedInstance (createInstance k ctx) ctx svc name st = Some (r, st')"
        by (simp add: resolve.simps)
      moreover have "\<And>r st'. createInstance k ctx svc st = Some (r, st') \<Longrightarrow> extends ctx st st'"
        using "1.IH"(2) [OF Some] Scoped by simp
      ultimately show ?thesis by (rule resolveScopedInstance_extends [rotated])
    next
      case Singleton
      with Some "1.prems" have "resolveSingletonInstance (createInstance k ctx) svc name st = Some (r, st')"
        by (simp add: resolve.simps)
      moreover have "\<And>r st'. createInstance k ctx svc st = Some (r, st') \<Longrightarrow> extends ctx st st'"
        using "1.IH"(1) [OF Some] Singleton by simp
      ultimately show ?thesis by (rule resolveSingletonInstance_extends [rotated])
    next
      case Transient
      with Some "1.prems" have "createInstance k ctx svc st = Some (r, st')"
        by (simp add: resolve.simps)
      then show ?thesis using "1.IH"(3) [OF Some] Transient by simp
    qed
  qed
next
  case (2 ctx svc st)
  then show ?case by simp
next
  case (3 k ctx svc st)
  show ?case
  proof (cases "isArrowFunction svc")
    case True
    with "3.prems" "3.IH"(1) show ?thesis
      by (cases "definition' svc") (auto simp: extends_refl)
  next
    case False
    with "3.prems" obtain rs st1 where ra: "resolveAll k ctx (dependencies svc) st = Some (rs, st1)"
      by (auto split: option.splits)
    from "3.IH"(2) [OF False ra] have e1: "extends ctx st st1" .
    show ?thesis
    proof (cases rs)
      case (Inl err)
      with False ra "3.prems" e1 show ?thesis by simp
    next
      case (Inr args)
      with False ra "3.prems" have "construct (definition' svc) args st1 = (r, st')" by simp
      from construct_extends [OF this] e1 show ?thesis by (blast intro: extends_trans)
    qed
  qed
next
  case (4 k ctx st)
  then show ?case by (simp add: extends_refl)
next
  case (5 k ctx d ds st)
  from "5.prems" obtain r1 st1 where r1: "resolve k ctx d st = Some (r1, st1)"
    by (auto split: option.splits)
  from "5.IH"(1) [OF r1] have e1: "extends ctx st st1" .
  show ?case
  proof (cases r1)
    case (Inl err)
    with r1 "5.prems" e1 show ?thesis by simp
  next
    case (Inr v)
    with r1 "5.prems" obtain rs2 st2 where r2: "resolveAll k ctx ds st1 = Some (rs2, st2)" and "st' = st2"
      by (auto split: option.splits sum.splits)
    from "5.IH"(2) [OF r1 refl Inr r2] e1 \<open>st' = st2\<close> show ?thesis
      by (blast intro: extends_trans)
  qed
next
  case (6 k ctx v st)
  then show ?case by (simp add: extends_refl)
next
  case (7 k ctx err st)
  then show ?case by (simp add: extends_refl)
next
  case (8 ctx name cont st)
  then show ?case by simp
next
  case (9 k ctx name cont st)
  from "9.prems" obtain r1 st1 where r1: "resolve k ctx name st = Some (r1, st1)"
    and c: "call k ctx (cont r1) st1 = Some (r, st')"
    by (auto split: option.splits)
  from "9.IH"(1) [OF r1] "9.IH"(2) [OF r1 refl c] show ?case
    by (blast intro: extends_trans)
next
  case (10 ctx cls args cont st)
  then show ?case by simp
next
  case (11 k ctx obj cont st)
  from "11.prems" have "call k ctx (cont (Ref (length (heap st)))) (st\<lparr>heap := heap st @ [obj]\<rparr>) = Some (r, st')"
    by simp
  from "11.IH" [OF this] extends_alloc show ?case
    by (blast intro: extends_trans)
qed

subsection \<open>More depth changes no result\<close>

lemma resolveSingletonInstance_mono:
  assumes "\<And>y. create svc st = Some y \<Longrightarrow> create' svc st = Some y"
      and "resolveSingletonInstance create svc name st = Some x"
  shows "resolveSingletonInstance create' svc name st = Some x"
  using assms
  by (auto simp: resolveSingletonInstance_def Let_def split: if_splits option.splits)

lemma resolveScopedInstance_mono:
  assumes "\<And>y. create svc st = Some y \<Longrightarrow> create' svc st = Some y"
      and "resolveScopedInstance create ctx svc name st = Some x"
  shows "resolveScopedInstance create' ctx svc name st = Some x"
  using assms
  by (auto simp: resolveScopedInstance_def Let_def split: if_splits option.splits)

lemma more_depth_Suc:
  "\<And>x. resolve k ctx name st = Some x \<Longrightarrow> resolve (Suc k) ctx name st = Some x"
  "\<And>x. createInstance k ctx svc st = Some x \<Longrightarrow> createInstance (Suc k) ctx svc st = Some x"
  "\<And>x. resolveAll k ctx ds st = Some x \<Longrightarrow> resolveAll (Suc k) ctx ds st = Some x"
  "\<And>x. call k ctx p st = Some x \<Longrightarrow> call (Suc k) ctx p st = Some x"
proof (induction k ctx name st and k ctx svc st and k ctx ds st and k ctx p st
       rule: resolve_createInstance_resolveAll_call.induct)
  case (1 k ctx name st)
  show ?case
  proof (cases "services st name")
    case None
    with "1.prems" show ?thesis by (simp add: resolve.simps)
  next
    case (Some svc)
    show ?thesis
    proof (cases "serviceLifetime svc")
      case Scoped
      with Some "1.prems" have h: "resolveScopedInstance (createInstance k ctx) ctx svc name st = Some x"
        by (simp add: resolve.simps)
      have ne: "serviceLifetime svc \<noteq> Singleton" using Scoped by simp
      note ih = "1.IH"(2) [OF Some ne Scoped]
      have "resolveScopedInstance (createInstance (Suc k) ctx) ctx svc name st = Some x"
        by (rule resolveScopedInstance_mono [OF _ h]) (rule ih)
      with Some Scoped show ?thesis by (simp add: resolve.simps)
    next
      case Singleton
      with Some "1.prems" have h: "resolveSingletonInstance (createInstance k ctx) svc name st = Some x"
        by (simp add: resolve.simps)
      note ih = "1.IH"(1) [OF Some Singleton]
      have "resolveSingletonInstance (createInstance (Suc k) ctx) svc name st = Some x"
        by (rule resolveSingletonInstance_mono [OF _ h]) (rule ih)
      with Some Singleton show ?thesis by (simp add: resolve.simps)
    next
      case Transient
      then have ne: "serviceLifetime svc \<noteq> Singleton" "serviceLifetime svc \<noteq> Scoped" by simp_all
      from Some Transient "1.prems" have "createInstance k ctx svc st = Some x"
        by (simp add: resolve.simps)
      from "1.IH"(3) [OF Some ne this] Some Transient show ?thesis
        by (simp add: resolve.simps)
    qed
  qed
next
  case (2 ctx svc st)
  then show ?case by simp
next
  case (3 k ctx svc st)
  show ?case
  proof (cases "isArrowFunction svc")
    case True
    with "3.prems" "3.IH"(1) show ?thesis
      by (cases "definition' svc") auto
  next
    case False
    with "3.prems" obtain y where ra: "resolveAll k ctx (dependencies svc) st = Some y"
      by (auto split: option.splits)
    from "3.IH"(2) [OF False ra] ra False "3.prems" show ?thesis by simp
  qed
next
  case (5 k ctx d ds st)
  from "5.prems" obtain r1 st1 where r1: "resolve k ctx d st = Some (r1, st1)"
    by (auto split: option.splits)
  note r1' = "5.IH"(1) [OF r1]
  show ?case
  proof (cases r1)
    case (Inl err)
    with r1 r1' "5.prems" show ?thesis by simp
  next
    case (Inr v)
    with r1 "5.prems" obtain y where r2: "resolveAll k ctx ds st1 = Some y"
      by (auto split: option.splits)
    from "5.IH"(2) [OF r1 refl Inr r2] r1 r1' r2 Inr "5.prems" show ?thesis by simp
  qed
next
  case (9 k ctx name cont st)
  from "9.prems" obtain r1 st1 where r1: "resolve k ctx name st = Some (r1, st1)"
    and c: "call k ctx (cont r1) st1 = Some x"
    by (auto split: option.splits)
  from "9.IH"(1) [OF r1] "9.IH"(2) [OF r1 refl c] show ?case by simp
next
  case (11 k ctx obj cont st)
  then show ?case by simp
qed simp_all

lemma more_depth_add:
  "resolve k ctx name st = Some x \<Longrightarrow> resolve (k + m) ctx name st = Some x"
proof (induction m)
  case 0
  then show ?case by simp
next
  case (Suc m)
  from more_depth_Suc(1) [OF Suc.IH [OF Suc.prems]] show ?case
    by simp
qed

lemma more_depth:
  "resolve k ctx name st = Some x \<Longrightarrow> k \<le> k' \<Longrightarrow> resolve k' ctx name st = Some x"
  using more_depth_add [of k ctx name st x "k' - k"] by simp

subsection \<open>Cached instances\<close>

lemma test_one_parameter:
  "test arrowFunctionRegex (cu CHR ''r'' # cu CHR '' '' # cu CHR ''='' # cu CHR ''>'' # rest)"
proof -
  have "cu CHR ''r'' # cu CHR '' '' # cu CHR ''='' # cu CHR ''>'' # rest
          = [] @ [cu CHR ''r''] @ [cu CHR '' ''] @ utf16 ''=>'' @ rest"
    by (simp add: utf16_def)
  moreover have "plain_parameters [cu CHR ''r'']"
    by (simp add: plain_parameters_def isWord_def cu_def)
  moreover have "list_all isWhiteSpace [cu CHR '' '']"
    by (simp add: isWhiteSpace_def cu_def)
  ultimately show ?thesis
    unfolding test_arrowFunctionRegex arrow_with_plain_parameters_def
    by (intro exI [of _ "[]"] exI [of _ "[cu CHR ''r'']"] exI [of _ "[cu CHR '' '']"] exI [of _ rest]) simp
qed

lemma test_no_parameter:
  "test arrowFunctionRegex (cu CHR ''('' # cu CHR '')'' # cu CHR '' '' # cu CHR ''='' # cu CHR ''>'' # rest)"
proof -
  have "cu CHR ''('' # cu CHR '')'' # cu CHR '' '' # cu CHR ''='' # cu CHR ''>'' # rest
          = [] @ [cu CHR ''('', cu CHR '')''] @ [cu CHR '' ''] @ utf16 ''=>'' @ rest"
    by (simp add: utf16_def)
  moreover have "plain_parameters [cu CHR ''('', cu CHR '')'']"
    unfolding plain_parameters_def
    by (rule disjI1, rule exI [of _ "[]"]) (simp add: utf16_def)
  moreover have "list_all isWhiteSpace [cu CHR '' '']"
    by (simp add: isWhiteSpace_def cu_def)
  ultimately show ?thesis
    unfolding test_arrowFunctionRegex arrow_with_plain_parameters_def
    by (intro exI [of _ "[]"] exI [of _ "[cu CHR ''('', cu CHR '')'']"] exI [of _ "[cu CHR '' '']"] exI [of _ rest]) simp
qed

lemmas container_defs =
  resolve.simps registerSingleton_def registerScoped_def registerTransient_def register_def registration_def new_container_def
  resolveSingletonInstance_def resolveScopedInstance_def singletons_get_def httpContext_get_def
  httpContext_set_def scopedKey_def converts_to_string_def utf16_def Let_def eval_nat_numeral
  test_one_parameter test_no_parameter


lemma registered:
  "services (register name d deps lifetime st) name = Some (registration d deps lifetime)"
  "singletons (register name d deps lifetime st) = singletons st"
  "httpContext (register name d deps lifetime st) = httpContext st"
  "heap (register name d deps lifetime st) = heap st"
  by (simp_all add: register_def registration_def)




lemma singleton_cached:
  "services st name = Some svc \<Longrightarrow> serviceLifetime svc = Singleton \<Longrightarrow> singletons st name = Some v \<Longrightarrow>
     resolve k ctx name st = Some (Inr v, st)"
  by (simp add: resolve.simps resolveSingletonInstance_def singletons_get_def)

lemma singleton_absent:
  "services st name = Some svc \<Longrightarrow> serviceLifetime svc = Singleton \<Longrightarrow> singletons st name = None \<Longrightarrow>
     resolve k ctx name st =
       (case createInstance k ctx svc st of
          None \<Rightarrow> None
        | Some (Inl err, s) \<Rightarrow> Some (Inl err, s)
        | Some (Inr v, s) \<Rightarrow> Some (Inr v, s\<lparr>singletons := (singletons s)(name \<mapsto> v)\<rparr>))"
  by (simp add: resolve.simps resolveSingletonInstance_def singletons_get_def Let_def
           split: option.split prod.split sum.split)

lemma singleton_first:
  assumes "services st name = Some svc" and "serviceLifetime svc = Singleton"
      and "resolve k ctx name st = Some (Inr v, st')"
  shows "services st' name = Some svc \<and> singletons st' name = Some v"
proof (cases "singletons st name")
  case None
  with assms obtain st1 where c: "createInstance k ctx svc st = Some (Inr v, st1)"
    and s: "st' = st1\<lparr>singletons := (singletons st1)(name \<mapsto> v)\<rparr>"
    by (auto simp: singleton_absent split: option.splits sum.splits)
  from resolve_extends_all(2) [OF c] have "services st1 = services st"
    by (simp add: extends_def)
  with s assms(1) show ?thesis by simp
next
  case (Some w)
  with assms show ?thesis
    by (auto simp: singleton_cached)
qed

lemma resolve_keeps_cached:
  assumes "services s name = Some svc" and "singletons s name = Some v"
      and "resolve k ctx other s = Some (r, s')"
  shows "services s' name = Some svc \<and> singletons s' name = Some v"
proof -
  from resolve_extends_all(1) [OF assms(3)]
  have "services s' = services s" and "singletons s \<subseteq>\<^sub>m singletons s'"
    by (simp_all add: extends_def)
  with assms(1,2) show ?thesis
    by (auto simp: map_le_def dom_def)
qed

text \<open>
  C7, as stated: every resolution of a singleton returns the identical instance, created
  on the first resolution. A factory that resolves its own name while it constructs
  gets one instance from that resolution (the object at position 1, kept by the object
  at position 2), and the resolution that started the construction returns and caches
  another (the object at position 0).
\<close>

theorem singleton_reentrant_counterexample:
  "fst (the (resolve 6 None ''Node'' (registerSingleton ''Node'' reentrant [] new_container))) = Inr (Ref 0) \<and>
   arguments (heap (snd (the (resolve 6 None ''Node''
                                 (registerSingleton ''Node'' reentrant [] new_container)))) ! 2) = [Ref 1]"
  by (simp add: container_defs reentrant_def del: test.simps)

text \<open>
  C7, amended. For a service registered as a singleton and resolutions made one after
  the other: a resolution that finds no instance cached runs the construction, caches
  what it returned under the name and returns it; once a resolution has returned an
  instance, that instance is cached, and from every state that still has the
  registration and the cached instance a resolution of the name returns that identical
  instance and changes nothing, and a resolution of any name keeps the registration and
  the cached instance in place. (A resolution of the name made from inside its own
  construction is not covered.)
\<close>

theorem singleton_identical:
  assumes "services st name = Some svc" and "serviceLifetime svc = Singleton"
  shows "(singletons st name = None \<longrightarrow>
            resolve k ctx name st =
              (case createInstance k ctx svc st of
                 None \<Rightarrow> None
               | Some (Inl err, s) \<Rightarrow> Some (Inl err, s)
               | Some (Inr i, s) \<Rightarrow> Some (Inr i, s\<lparr>singletons := (singletons s)(name \<mapsto> i)\<rparr>))) \<and>
         (resolve k ctx name st = Some (Inr v, st') \<longrightarrow>
            services st' name = Some svc \<and> singletons st' name = Some v \<and>
            (\<forall>s. services s name = Some svc \<and> singletons s name = Some v \<longrightarrow>
                 (\<forall>k' ctx'. resolve k' ctx' name s = Some (Inr v, s)) \<and>
                 (\<forall>k' ctx' other r s'. resolve k' ctx' other s = Some (r, s') \<longrightarrow>
                    services s' name = Some svc \<and> singletons s' name = Some v)))"
  using singleton_absent [OF assms] singleton_first [OF assms] singleton_cached [OF _ assms(2)]
        resolve_keeps_cached
  by blast

theorem singleton_identical_witness:
  "singletons demo_container ''AuthController'' = None \<and>
   (\<exists>st'. resolve 2 None ''AuthController'' demo_container = Some (Inr (Ref 1), st') \<and>
          map className (heap st') = [''AuthService'', ''AuthController''] \<and>
          singletons st' ''AuthController'' = Some (Ref 1) \<and>
          resolve 0 (Some 7) ''AuthController'' st' = Some (Inr (Ref 1), st') \<and>
          (\<forall>r s'. resolve 1 None ''AuthService'' st' = Some (r, s') \<longrightarrow>
             singletons s' ''AuthController'' = Some (Ref 1)))"
proof -
  let ?svc = "registration (Class ''AuthController'' True (\<lambda>args. Inr Undefined)) [''AuthService''] Singleton"
  have h0: "singletons demo_container ''AuthController'' = None"
    by (simp add: demo_container_def container_defs del: test.simps)
  have h1: "services demo_container ''AuthController'' = Some ?svc"
    by (simp add: demo_container_def registerSingleton_def registered)
  have h2: "serviceLifetime ?svc = Singleton"
    by (simp add: registration_def)
  obtain st' where h3: "resolve 2 None ''AuthController'' demo_container = Some (Inr (Ref 1), st')"
    and h4: "map className (heap st') = [''AuthService'', ''AuthController'']"
    by (simp add: demo_container_def container_defs del: test.simps)
  from singleton_identical [OF h1 h2, where k = 2 and ctx = None and v = "Ref 1" and st' = st'] h3
  have "singletons st' ''AuthController'' = Some (Ref 1) \<and>
        resolve 0 (Some 7) ''AuthController'' st' = Some (Inr (Ref 1), st') \<and>
        (\<forall>r s'. resolve 1 None ''AuthService'' st' = Some (r, s') \<longrightarrow>
           singletons s' ''AuthController'' = Some (Ref 1))"
    by blast
  then show ?thesis
    using h0 h3 h4 by - (intro conjI exI [of _ st'], simp_all)
qed


















subsection \<open>Registration\<close>

lemma register_cached:
  "httpContext_get ctx key (register name d deps lifetime st) = httpContext_get ctx key st"
  "converts_to_string (register name d deps lifetime st) v = converts_to_string st v"
  by (simp_all add: httpContext_get_def converts_to_string_def registered split: option.split jsval.split)





subsection \<open>Construction\<close>






end
